theory Spec2Isabelle
  imports Main "HOL-Library.Multiset"
begin

section \<open>The host: a clock and a timer table\<close>

text \<open>
  The program runs on a single-threaded event loop. Its state is the clock
  (\<open>Date.now()\<close>, in milliseconds), the table of pending timers, and the data the
  callbacks work on (\<open>world\<close>). A timer is \<open>(handle, due time, callback)\<close>; the table is
  kept in the order of registration. \<open>timeoutId\<close> is the variable
  \<^verbatim>\<open>let timeoutId\<close> that the closure returned by \<^verbatim>\<open>debounce\<close> captures
  (\<open>None\<close> is \<^verbatim>\<open>undefined\<close>); each program below holds exactly one such closure.

  The callbacks of this repository (the debounced effect, the release of the loading lock,
  the resolution of a grace period) read the clock and work on the data only, none of them
  sets or clears a timer: a callback is interpreted by a function
  \<open>'c \<Rightarrow> nat \<Rightarrow> 'w \<Rightarrow> 'w\<close> of the time at which it runs.
\<close>

record ('c, 'w) runtime =
  now :: nat
  nextHandle :: nat
  timers :: "(nat \<times> nat \<times> 'c) list"
  timeoutId :: "nat option"
  world :: 'w

definition setTimeout :: "'c \<Rightarrow> nat \<Rightarrow> ('c, 'w) runtime \<Rightarrow> nat \<times> ('c, 'w) runtime" where
  "setTimeout cb ms s =
     (nextHandle s,
      s\<lparr>nextHandle := Suc (nextHandle s),
        timers := timers s @ [(nextHandle s, now s + ms, cb)]\<rparr>)"

text \<open>\<^verbatim>\<open>clearTimeout(undefined)\<close> and clearing a handle that is no longer pending do nothing.\<close>

definition clearTimeout :: "nat option \<Rightarrow> ('c, 'w) runtime \<Rightarrow> ('c, 'w) runtime" where
  "clearTimeout h s =
     (case h of
        None \<Rightarrow> s
      | Some i \<Rightarrow> s\<lparr>timers := filter (\<lambda>e. fst e \<noteq> i) (timers s)\<rparr>)"

definition due :: "nat \<Rightarrow> nat \<times> nat \<times> 'c \<Rightarrow> bool" where
  "due t e = (fst (snd e) \<le> t)"

text \<open>
  Letting \<open>d\<close> milliseconds pass: the timers that fall due run in the order of their due
  times (registration order among equal ones), each at its due time, and leave the table.
\<close>

definition advance ::
  "('c \<Rightarrow> nat \<Rightarrow> 'w \<Rightarrow> 'w) \<Rightarrow> nat \<Rightarrow> ('c, 'w) runtime \<Rightarrow> ('c, 'w) runtime" where
  "advance fire d s =
     (let t = now s + d;
          ready = sort_key (\<lambda>e. fst (snd e)) (filter (due t) (timers s))
      in s\<lparr>now := t,
           timers := filter (\<lambda>e. \<not> due t e) (timers s),
           world := foldl (\<lambda>w e. fire (snd (snd e)) (max (fst (snd e)) (now s)) w) (world s) ready\<rparr>)"

section \<open>The debounce helper (examples/main.ts)\<close>

text \<open>
  \<^verbatim>\<open>debounce(fn, ms)\<close> returns the closure \<open>debounced\<close> with the method \<open>flush\<close>.
  \<open>thunk args\<close> is the callback \<^verbatim>\<open>() => fn(...args)\<close> handed to \<^verbatim>\<open>setTimeout\<close>;
  \<open>flush\<close> calls \<^verbatim>\<open>fn()\<close>, with no argument, itself.
\<close>

definition debounced ::
  "('a list \<Rightarrow> 'c) \<Rightarrow> nat \<Rightarrow> 'a list \<Rightarrow> ('c, 'w) runtime \<Rightarrow> ('c, 'w) runtime" where
  "debounced thunk ms args s =
     (case setTimeout (thunk args) ms (clearTimeout (timeoutId s) s) of
        (h, s') \<Rightarrow> s'\<lparr>timeoutId := Some h\<rparr>)"

definition flush ::
  "('a list \<Rightarrow> nat \<Rightarrow> 'w \<Rightarrow> 'w) \<Rightarrow> ('c, 'w) runtime \<Rightarrow> ('c, 'w) runtime" where
  "flush fn s =
     (let s' = clearTimeout (timeoutId s) s
      in s'\<lparr>world := fn [] (now s') (world s')\<rparr>)"

subsection \<open>The helper under observation\<close>

text \<open>
  To count the invocations of the wrapped effect, \<open>fn\<close> is taken to be a recorder: it
  appends the time of the invocation and the arguments it received to a log, which is
  the whole \<open>world\<close>. The callback of a timer is the argument list its closure captured.
\<close>

type_synonym 'a observed = "('a list, (nat \<times> 'a list) list) runtime"

definition recorder :: "'a list \<Rightarrow> nat \<Rightarrow> (nat \<times> 'a list) list \<Rightarrow> (nat \<times> 'a list) list" where
  "recorder args at log = log @ [(at, args)]"

datatype 'a action = Call "'a list" | Flush | Wait nat

fun act :: "nat \<Rightarrow> 'a action \<Rightarrow> 'a observed \<Rightarrow> 'a observed" where
  "act ms (Call args) s = debounced (\<lambda>a. a) ms args s"
| "act ms Flush s = flush recorder s"
| "act ms (Wait d) s = advance recorder d s"

definition run :: "nat \<Rightarrow> 'a action list \<Rightarrow> 'a observed \<Rightarrow> 'a observed" where
  "run ms acts s = fold (act ms) acts s"

definition boot :: "nat \<Rightarrow> 'a observed" where
  "boot t0 = \<lparr>now = t0, nextHandle = 1, timers = [], timeoutId = None, world = []\<rparr>"

text \<open>A burst: the first call, then further calls, each after the given gap.\<close>

fun burst :: "'a list \<Rightarrow> (nat \<times> 'a list) list \<Rightarrow> 'a action list" where
  "burst a [] = [Call a]"
| "burst a ((g, b) # rest) = Call a # Wait g # burst b rest"

fun final_args :: "'a list \<Rightarrow> (nat \<times> 'a list) list \<Rightarrow> 'a list" where
  "final_args a [] = a"
| "final_args a ((g, b) # rest) = final_args b rest"

text \<open>Every further call of a burst comes less than \<open>ms\<close> after the call before it.\<close>

fun within_window :: "nat \<Rightarrow> (nat \<times> 'a list) list \<Rightarrow> bool" where
  "within_window ms [] = True"
| "within_window ms ((g, b) # rest) = (g < ms \<and> within_window ms rest)"

text \<open>At most one timer is pending, and it is the one \<open>timeoutId\<close> names.\<close>

definition single_timer :: "('c, 'w) runtime \<Rightarrow> bool" where
  "single_timer s =
     (case timers s of
        [] \<Rightarrow> True
      | [e] \<Rightarrow> timeoutId s = Some (fst e)
      | _ \<Rightarrow> False)"

section \<open>The storage contract and its IndexedDB implementation\<close>

text \<open>
  \<^verbatim>\<open>CanvasMetadata\<close> and \<^verbatim>\<open>CanvasData\<close> of StorageService.ts. A \<^verbatim>\<open>CanvasData\<close> is a
  \<^verbatim>\<open>CanvasMetadata\<close> with the two content fields, so it is modelled as the extension of
  that record. Time stamps are values of \<^verbatim>\<open>Date.now()\<close>: milliseconds, natural numbers.
  The types of nodes and of the application state belong to the editor and stay parameters.
\<close>

record CanvasMetadata =
  id :: string
  name :: string
  createdAt :: nat
  updatedAt :: nat

record ('n, 'a) CanvasData = CanvasMetadata +
  nodes :: "'n list"
  appState :: 'a

datatype error = Error string

text \<open>
  How a request to the object store ends: \<^verbatim>\<open>onsuccess\<close> with \<^verbatim>\<open>request.result\<close>, or
  \<^verbatim>\<open>onerror\<close> with \<^verbatim>\<open>request.error\<close>.
\<close>

datatype 'r request = Succeeded 'r | Failed error

text \<open>
  \<^verbatim>\<open>Array.prototype.sort(cmp)\<close> is a stable sort: an element goes before the first
  element that the comparator does not put before it. Insertion from the right computes
  that array.
\<close>

fun insert_by :: "('x \<Rightarrow> 'x \<Rightarrow> int) \<Rightarrow> 'x \<Rightarrow> 'x list \<Rightarrow> 'x list" where
  "insert_by cmp x [] = [x]"
| "insert_by cmp x (y # ys) = (if cmp x y \<le> 0 then x # y # ys else y # insert_by cmp x ys)"

definition array_sort :: "('x \<Rightarrow> 'x \<Rightarrow> int) \<Rightarrow> 'x list \<Rightarrow> 'x list" where
  "array_sort cmp xs = foldr (insert_by cmp) xs []"

definition metadata_of :: "('n, 'a) CanvasData \<Rightarrow> CanvasMetadata" where
  "metadata_of c =
     \<lparr>CanvasMetadata.id = CanvasMetadata.id c,
      name = name c,
      createdAt = CanvasMetadata.createdAt c,
      updatedAt = updatedAt c\<rparr>"

definition by_updatedAt_desc :: "CanvasMetadata \<Rightarrow> CanvasMetadata \<Rightarrow> int" where
  "by_updatedAt_desc a b = int (updatedAt b) - int (updatedAt a)"

text \<open>
  \<^verbatim>\<open>IndexedDbStorageService.listCanvases\<close>. \<open>db\<close> is how \<^verbatim>\<open>await this.dbPromise\<close> ends
  (\<open>Some e\<close>: the database could not be opened), \<open>req\<close> how \<^verbatim>\<open>store.getAll()\<close> ends.
\<close>

definition listCanvases ::
  "error option \<Rightarrow> ('n, 'a) CanvasData list request \<Rightarrow> error + CanvasMetadata list" where
  "listCanvases db req =
     (case db of
        Some e \<Rightarrow> Inl e
      | None \<Rightarrow>
          (case req of
             Failed e \<Rightarrow> Inl e
           | Succeeded canvases \<Rightarrow> Inr (array_sort by_updatedAt_desc (map metadata_of canvases))))"

text \<open>
  \<^verbatim>\<open>IndexedDbStorageService.loadCanvas\<close>: \<^verbatim>\<open>request.result || null\<close> is the record, or
  \<^verbatim>\<open>null\<close> when the key is absent.
\<close>

definition idb_loadCanvas ::
  "error option \<Rightarrow> ('n, 'a) CanvasData option request \<Rightarrow> error + ('n, 'a) CanvasData option" where
  "idb_loadCanvas db req =
     (case db of
        Some e \<Rightarrow> Inl e
      | None \<Rightarrow> (case req of Failed e \<Rightarrow> Inl e | Succeeded r \<Rightarrow> Inr r))"

text \<open>The orders a listing can be held against.\<close>

definition descending :: "nat list \<Rightarrow> bool" where
  "descending ts = sorted_wrt (\<lambda>a b. b \<le> a) ts"

definition strictly_descending :: "nat list \<Rightarrow> bool" where
  "strictly_descending ts = sorted_wrt (\<lambda>a b. b < a) ts"

section \<open>The persistence manager\<close>

record ('n, 'a) Snapshot =
  appState :: 'a
  nodes :: "'n list"

text \<open>
  The fields of \<^verbatim>\<open>PersistenceManager\<close>. A registered error handler is caller code of
  type \<^verbatim>\<open>(error: Error) => void\<close>: called with an error it either returns (\<open>None\<close>) or
  throws (\<open>Some\<close> of what it throws). The manager talks to its \<^verbatim>\<open>StorageService\<close>
  through promises; how a request ends is an event of its own. The four last fields
  record, oldest first, what the manager has asked of the storage, the errors it has
  handed to the error handler, and the rejections of promises that nobody holds (the
  host reports them as unhandled rejections).
\<close>

record ('n, 'a) PersistenceManager =
  canvasId :: "string option"
  canvasName :: string
  createdAt :: nat
  isLoading :: bool
  onSaveError :: "(error \<Rightarrow> error option) option"
  currentSnapshot :: "('n, 'a) Snapshot option"
  saveCanvasCalls :: "('n, 'a) CanvasData list"
  loadCanvasCalls :: "string list"
  handled :: "error list"
  unhandledRejections :: "error list"

text \<open>The callbacks the manager hands to \<^verbatim>\<open>setTimeout\<close>.\<close>

datatype callback = SaveThunk | ReleaseLoading | GraceElapsed

type_synonym ('n, 'a) session = "(callback, ('n, 'a) PersistenceManager) runtime"

text \<open>A \<^verbatim>\<open>string | null\<close> (or optional string) in a condition: null and the empty string are falsy.\<close>

definition truthy :: "string option \<Rightarrow> bool" where
  "truthy v = (case v of None \<Rightarrow> False | Some str \<Rightarrow> str \<noteq> [])"

definition setCanvasId ::
  "string \<Rightarrow> string option \<Rightarrow> ('n, 'a) PersistenceManager \<Rightarrow> ('n, 'a) PersistenceManager" where
  "setCanvasId i nm m =
     (let m' = m\<lparr>canvasId := Some i\<rparr>
      in case nm of
           None \<Rightarrow> m'
         | Some n \<Rightarrow> if truthy nm then m'\<lparr>canvasName := n\<rparr> else m')"

definition getCanvasId :: "('n, 'a) PersistenceManager \<Rightarrow> string option" where
  "getCanvasId m = canvasId m"

definition setErrorHandler ::
  "(error \<Rightarrow> error option) \<Rightarrow> ('n, 'a) PersistenceManager \<Rightarrow> ('n, 'a) PersistenceManager" where
  "setErrorHandler handler m = m\<lparr>onSaveError := Some handler\<rparr>"

text \<open>
  \<^verbatim>\<open>save\<close> up to its \<^verbatim>\<open>await\<close>: the guard, the record, and the call of
  \<^verbatim>\<open>storage.saveCanvas\<close>. \<open>at\<close> is \<^verbatim>\<open>Date.now()\<close>.
\<close>

definition save :: "nat \<Rightarrow> ('n, 'a) PersistenceManager \<Rightarrow> ('n, 'a) PersistenceManager" where
  "save at m =
     (if \<not> truthy (canvasId m) \<or> currentSnapshot m = None \<or> isLoading m then m
      else case (canvasId m, currentSnapshot m) of
             (Some cid, Some snap) \<Rightarrow>
               m\<lparr>saveCanvasCalls := saveCanvasCalls m @
                    [\<lparr>CanvasMetadata.id = cid,
                      name = canvasName m,
                      CanvasMetadata.createdAt = createdAt m,
                      updatedAt = at,
                      CanvasData.nodes = Snapshot.nodes snap,
                      CanvasData.appState = Snapshot.appState snap\<rparr>]\<rparr>
           | _ \<Rightarrow> m)"

text \<open>
  \<^verbatim>\<open>save\<close> after its \<^verbatim>\<open>await\<close>: \<open>r\<close> is how the promise of \<^verbatim>\<open>storage.saveCanvas\<close>
  ended. The first component of the value is how the promise of \<^verbatim>\<open>save\<close> itself
  ends: \<open>Inr\<close> fulfilled, \<open>Inl\<close> rejected. The handler is called inside the
  \<^verbatim>\<open>catch\<close> block, so what it throws rejects the promise of \<^verbatim>\<open>save\<close>.
\<close>

definition save_settled ::
  "error + unit \<Rightarrow> ('n, 'a) PersistenceManager \<Rightarrow>
     (error + unit) \<times> ('n, 'a) PersistenceManager" where
  "save_settled r m =
     (case r of
        Inr u \<Rightarrow> (Inr (), m)
      | Inl e \<Rightarrow>
          (case onSaveError m of
             Some handler \<Rightarrow>
               ((case handler e of None \<Rightarrow> Inr () | Some e' \<Rightarrow> Inl e'),
                m\<lparr>handled := handled m @ [e]\<rparr>)
           | None \<Rightarrow> (Inr (), m)))"

text \<open>
  Modelled from the spec: the \<^verbatim>\<open>debounce\<close> of \<^verbatim>\<open>../utils\<close> that the manager imports is
  not among the sources. The specification (4.1) describes \<^verbatim>\<open>schedule()\<close> and
  \<^verbatim>\<open>flush()\<close> as the helper of examples/main.ts behaves: a call cancels the pending timer
  and starts a new one that invokes the effect when it elapses; \<open>flush\<close> cancels the
  pending timer and invokes the effect at once. \<^verbatim>\<open>debouncedSave\<close> is
  \<^verbatim>\<open>debounce(() => this.save(), 1000)\<close>.
\<close>

definition debouncedSave :: "('n, 'a) session \<Rightarrow> ('n, 'a) session" where
  "debouncedSave s = debounced (\<lambda>args :: unit list. SaveThunk) 1000 [] s"

definition debouncedSave_flush :: "('n, 'a) session \<Rightarrow> ('n, 'a) session" where
  "debouncedSave_flush s = flush (\<lambda>args :: unit list. save) s"

definition onStateChange :: "('n, 'a) Snapshot \<Rightarrow> ('n, 'a) session \<Rightarrow> ('n, 'a) session" where
  "onStateChange snapshot s =
     (if isLoading (world s) then s
      else if truthy (canvasId (world s))
      then debouncedSave (s\<lparr>world := (world s)\<lparr>currentSnapshot := Some snapshot\<rparr>\<rparr>)
      else s)"

definition updateSnapshot :: "('n, 'a) Snapshot \<Rightarrow> ('n, 'a) session \<Rightarrow> ('n, 'a) session" where
  "updateSnapshot snapshot s =
     onStateChange snapshot (s\<lparr>world := (world s)\<lparr>currentSnapshot := Some snapshot\<rparr>\<rparr>)"

text \<open>
  \<^verbatim>\<open>loadCanvas\<close> up to its \<^verbatim>\<open>await\<close>, and after it: \<open>r\<close> is how the promise of
  \<^verbatim>\<open>storage.loadCanvas\<close> ended (\<open>Inr None\<close>: no such record). The first component of
  the value is how the promise of \<^verbatim>\<open>loadCanvas\<close> ends; the \<^verbatim>\<open>finally\<close> block runs on
  every path.
\<close>

definition loadCanvas :: "string \<Rightarrow> ('n, 'a) session \<Rightarrow> ('n, 'a) session" where
  "loadCanvas i s =
     s\<lparr>world := (world s)\<lparr>isLoading := True, loadCanvasCalls := loadCanvasCalls (world s) @ [i]\<rparr>\<rparr>"

definition loadCanvas_settled ::
  "error + ('n, 'a) CanvasData option \<Rightarrow> ('n, 'a) session \<Rightarrow>
     (error + ('n, 'a) CanvasData option) \<times> ('n, 'a) session" where
  "loadCanvas_settled r s =
     (let s' =
        (case r of
           Inr (Some data) \<Rightarrow>
             s\<lparr>world := (world s)
                 \<lparr>canvasId := Some (CanvasMetadata.id data),
                  canvasName := name data,
                  createdAt := CanvasMetadata.createdAt data,
                  currentSnapshot :=
                    Some \<lparr>appState = CanvasData.appState data, nodes = CanvasData.nodes data\<rparr>\<rparr>\<rparr>
         | _ \<Rightarrow> s)
      in (r, snd (setTimeout ReleaseLoading 100 s')))"

text \<open>\<open>generated\<close> is the value of \<^verbatim>\<open>storage.generateId()\<close>, \<open>at\<close> of \<^verbatim>\<open>Date.now()\<close>.\<close>

definition createNewCanvas ::
  "string \<Rightarrow> string option \<Rightarrow> nat \<Rightarrow> ('n, 'a) PersistenceManager \<Rightarrow>
     string \<times> ('n, 'a) PersistenceManager" where
  "createNewCanvas generated nm at m =
     (generated,
      m\<lparr>canvasId := Some generated,
        canvasName := (case nm of None \<Rightarrow> ''Untitled Canvas''
                       | Some n \<Rightarrow> if truthy nm then n else ''Untitled Canvas''),
        createdAt := at,
        currentSnapshot := None\<rparr>)"

definition forceSave :: "('n, 'a) session \<Rightarrow> ('n, 'a) session" where
  "forceSave s = snd (setTimeout GraceElapsed 50 (debouncedSave_flush s))"

text \<open>What a timer callback of the manager does when it runs at time \<open>at\<close>.\<close>

fun fire :: "callback \<Rightarrow> nat \<Rightarrow> ('n, 'a) PersistenceManager \<Rightarrow> ('n, 'a) PersistenceManager" where
  "fire SaveThunk at m = save at m"
| "fire ReleaseLoading at m = m\<lparr>isLoading := False\<rparr>"
| "fire GraceElapsed at m = m"

subsection \<open>Runs of a manager\<close>

text \<open>
  What can happen to a manager: a call of one of its methods, the end of a storage
  request it is waiting for, or the passing of time. The promise of \<^verbatim>\<open>save\<close> is held
  by nobody: the timer callback and \<open>flush\<close> drop it, so that its rejection is an
  unhandled rejection.
\<close>

datatype ('n, 'a) event =
    SetCanvasId string "string option"
  | SetErrorHandler "error \<Rightarrow> error option"
  | OnStateChange "('n, 'a) Snapshot"
  | UpdateSnapshot "('n, 'a) Snapshot"
  | LoadCanvas string
  | LoadSettled "error + ('n, 'a) CanvasData option"
  | CreateNewCanvas string "string option"
  | ForceSave
  | SaveSettled "error + unit"
  | Elapse nat

fun step :: "('n, 'a) event \<Rightarrow> ('n, 'a) session \<Rightarrow> ('n, 'a) session" where
  "step (SetCanvasId i nm) s = s\<lparr>world := setCanvasId i nm (world s)\<rparr>"
| "step (SetErrorHandler h) s = s\<lparr>world := setErrorHandler h (world s)\<rparr>"
| "step (OnStateChange snapshot) s = onStateChange snapshot s"
| "step (UpdateSnapshot snapshot) s = updateSnapshot snapshot s"
| "step (LoadCanvas i) s = loadCanvas i s"
| "step (LoadSettled r) s = snd (loadCanvas_settled r s)"
| "step (CreateNewCanvas generated nm) s =
     s\<lparr>world := snd (createNewCanvas generated nm (now s) (world s))\<rparr>"
| "step ForceSave s = forceSave s"
| "step (SaveSettled r) s =
     (case save_settled r (world s) of
        (Inr u, m) \<Rightarrow> s\<lparr>world := m\<rparr>
      | (Inl e, m) \<Rightarrow> s\<lparr>world := m\<lparr>unhandledRejections := unhandledRejections m @ [e]\<rparr>\<rparr>)"
| "step (Elapse d) s = advance fire d s"

definition exec :: "('n, 'a) event list \<Rightarrow> ('n, 'a) session \<Rightarrow> ('n, 'a) session" where
  "exec evs s = fold step evs s"

text \<open>A manager constructed at time \<open>t0\<close>.\<close>

definition init :: "nat \<Rightarrow> ('n, 'a) session" where
  "init t0 =
     \<lparr>now = t0, nextHandle = 1, timers = [], timeoutId = None,
      world =
        \<lparr>canvasId = None, canvasName = ''Untitled Canvas'', createdAt = t0,
         isLoading = False, onSaveError = None, currentSnapshot = None,
         saveCanvasCalls = [], loadCanvasCalls = [], handled = [],
         unhandledRejections = []\<rparr>\<rparr>"

text \<open>No event of the run changes the creation time the manager holds.\<close>

fun createdAt_untouched :: "('n, 'a) event list \<Rightarrow> ('n, 'a) session \<Rightarrow> bool" where
  "createdAt_untouched [] s = True"
| "createdAt_untouched (ev # evs) s =
     (createdAt (world (step ev s)) = createdAt (world s) \<and> createdAt_untouched evs (step ev s))"

text \<open>Two error handlers: one returns, one throws the error it is given.\<close>

definition returning :: "error \<Rightarrow> error option" where
  "returning e = None"

definition rethrowing :: "error \<Rightarrow> error option" where
  "rethrowing e = Some e"

subsection \<open>Notions the statements use\<close>

text \<open>No release of the loading lock, scheduled by an earlier load, is waiting in the timer table.\<close>

definition no_release_pending :: "('n, 'a) session \<Rightarrow> bool" where
  "no_release_pending s = list_all (\<lambda>e. snd (snd e) \<noteq> ReleaseLoading) (timers s)"

text \<open>
  The writes \<open>m'\<close> has issued are those of \<open>m\<close> followed by records that all carry the
  creation time \<open>c\<close>.
\<close>

definition writes_carry ::
  "nat \<Rightarrow> ('n, 'a) PersistenceManager \<Rightarrow> ('n, 'a) PersistenceManager \<Rightarrow> bool" where
  "writes_carry c m m' =
     (take (length (saveCanvasCalls m)) (saveCanvasCalls m') = saveCanvasCalls m \<and>
      list_all (\<lambda>r. CanvasMetadata.createdAt r = c)
        (drop (length (saveCanvasCalls m)) (saveCanvasCalls m')))"

text \<open>The writes issued so far are in the order of their \<open>updatedAt\<close>, none later than \<open>hi\<close>.\<close>

definition stamped :: "nat \<Rightarrow> ('n, 'a) PersistenceManager \<Rightarrow> bool" where
  "stamped hi m =
     (sorted (map updatedAt (saveCanvasCalls m)) \<and>
      list_all (\<lambda>r. updatedAt r \<le> hi) (saveCanvasCalls m))"

section \<open>The debounce helper: coalescing and flush\<close>

lemmas host_defs =
  debounced_def flush_def setTimeout_def clearTimeout_def advance_def due_def Let_def

lemma single_timer_boot: "single_timer (boot t0)"
  by (simp add: single_timer_def boot_def)

lemma clear_single: "single_timer s \<Longrightarrow> timers (clearTimeout (timeoutId s) s) = []"
  by (auto simp: single_timer_def clearTimeout_def split: list.splits option.splits)

lemma clear_frame:
  "now (clearTimeout h s) = now s" "world (clearTimeout h s) = world s"
  "nextHandle (clearTimeout h s) = nextHandle s" "timeoutId (clearTimeout h s) = timeoutId s"
  by (simp_all add: clearTimeout_def split: option.splits)

lemma debounced_armed:
  assumes "single_timer s"
  shows "timers (debounced thunk ms args s) = [(nextHandle s, now s + ms, thunk args)]"
    and "timeoutId (debounced thunk ms args s) = Some (nextHandle s)"
    and "world (debounced thunk ms args s) = world s"
    and "now (debounced thunk ms args s) = now s"
  using clear_single[OF assms]
  by (simp_all add: debounced_def setTimeout_def clear_frame)

lemma single_timer_debounced: "single_timer s \<Longrightarrow> single_timer (debounced thunk ms args s)"
  by (simp add: single_timer_def debounced_armed)

lemma flush_frame:
  "world (flush fn s) = fn [] (now s) (world s)"
  "now (flush fn s) = now s"
  "timers (flush fn s) = timers (clearTimeout (timeoutId s) s)"
  "timeoutId (flush fn s) = timeoutId s"
  by (simp_all add: flush_def Let_def clear_frame)

lemma single_timer_flush: "single_timer s \<Longrightarrow> single_timer (flush fn s)"
  by (simp add: single_timer_def flush_frame clear_single)

lemma advance_frame:
  "now (advance f d s) = now s + d"
  "timers (advance f d s) = filter (\<lambda>e. \<not> due (now s + d) e) (timers s)"
  "timeoutId (advance f d s) = timeoutId s"
  "nextHandle (advance f d s) = nextHandle s"
  by (simp_all add: advance_def Let_def)

lemma single_timer_advance: "single_timer s \<Longrightarrow> single_timer (advance f d s)"
  by (auto simp: single_timer_def advance_frame split: list.splits)

lemma single_timer_act: "single_timer s \<Longrightarrow> single_timer (act ms a s)"
  by (cases a) (simp_all add: single_timer_debounced single_timer_flush single_timer_advance)

lemma single_timer_run: "single_timer s \<Longrightarrow> single_timer (run ms acts s)"
  unfolding run_def by (induction acts arbitrary: s) (simp_all add: single_timer_act)

lemma advance_idle: "timers s = [] \<Longrightarrow> world (advance f d s) = world s"
  by (simp add: advance_def Let_def)

lemma advance_one:
  "timers s = [(h, T, c)] \<Longrightarrow>
   world (advance f d s) = (if T \<le> now s + d then f c (max T (now s)) (world s) else world s)"
  by (simp add: advance_def Let_def due_def)

lemma run_Cons: "run ms (a # acts) s = run ms acts (act ms a s)"
  by (simp add: run_def)

text \<open>
  After a burst whose calls are less than \<open>ms\<close> apart nothing has been invoked, and the
  one pending timer is the last call's, due \<open>ms\<close> after it.
\<close>

lemma burst_armed:
  assumes "single_timer s" and "within_window ms rest"
  shows "world (run ms (burst a rest) s) = world s \<and>
         (\<exists>h. timers (run ms (burst a rest) s) =
           [(h, now (run ms (burst a rest) s) + ms, final_args a rest)])"
  using assms
proof (induction a rest arbitrary: s rule: burst.induct)
  case (1 a)
  then show ?case
    by (simp add: run_def debounced_armed)
next
  case (2 a g b rest)
  let ?s1 = "debounced (\<lambda>a. a) ms a s"
  let ?s2 = "advance recorder g ?s1"
  from "2.prems" have g: "g < ms" and r: "within_window ms rest" by simp_all
  have w2: "world ?s2 = world s"
    using g
    by (simp add: advance_one[OF debounced_armed(1)[OF "2.prems"(1)]] debounced_armed[OF "2.prems"(1)])
  have st: "single_timer ?s2"
    by (simp add: single_timer_advance single_timer_debounced "2.prems"(1))
  from "2.IH"[OF st r] w2 show ?case
    by (simp add: run_Cons)
qed

text \<open>
  Claim C1. Take the helper in any state it can reach (\<open>run ms pre (boot t0)\<close>), and
  a sequence of one or more calls in which every call comes strictly less than \<open>ms\<close>
  after the one before. The calls themselves invoke nothing. Once \<open>w\<close> more
  milliseconds have passed, the wrapped effect has been invoked not at all if \<open>w < ms\<close>,
  and exactly once if \<open>ms \<le> w\<close>: at the time of the last call plus \<open>ms\<close>, with the
  arguments of the last call.
\<close>

theorem debounce_trailing_edge:
  assumes "within_window ms rest"
  shows "let s = run ms pre (boot t0); s' = run ms (burst a rest) s in
     world s' = world s \<and>
     world (advance recorder w s') =
       world s @ (if ms \<le> w then [(now s' + ms, final_args a rest)] else [])"
proof -
  have st: "single_timer (run ms pre (boot t0))"
    by (simp add: single_timer_run single_timer_boot)
  from burst_armed[OF st assms, of a]
  obtain h where w: "world (run ms (burst a rest) (run ms pre (boot t0))) = world (run ms pre (boot t0))"
    and t: "timers (run ms (burst a rest) (run ms pre (boot t0))) =
           [(h, now (run ms (burst a rest) (run ms pre (boot t0))) + ms, final_args a rest)]"
    by blast
  show ?thesis
    by (simp add: Let_def advance_one[OF t] recorder_def w)
qed

text \<open>
  Five calls 50 ms apart with a window of 1000 ms: nothing after 999 ms, one invocation
  after 1000 ms, stamped 200 + 1000 and carrying the fifth call's argument.
\<close>

theorem debounce_trailing_edge_witness:
  "within_window 1000 [(50, [2::nat]), (50, [3]), (50, [4]), (50, [5])] \<and>
   world (advance recorder 999
      (run 1000 (burst [1::nat] [(50, [2]), (50, [3]), (50, [4]), (50, [5])]) (boot 0))) = [] \<and>
   world (advance recorder 1000
      (run 1000 (burst [1::nat] [(50, [2]), (50, [3]), (50, [4]), (50, [5])]) (boot 0))) = [(1200, [5])]"
  using debounce_trailing_edge[of 1000 "[(50, [2]), (50, [3]), (50, [4]), (50, [5])]" "[]" 0 "[1::nat]" 999]
    debounce_trailing_edge[of 1000 "[(50, [2]), (50, [3]), (50, [4]), (50, [5])]" "[]" 0 "[1::nat]" 1000]
  by (simp add: run_def boot_def host_defs)

text \<open>
  Claim C4. In every state, \<open>flush\<close> invokes the wrapped effect once, with no argument,
  at the current time, without letting the clock move. In every state the helper can
  reach, with a call pending or not, no timer is left afterwards, so that no amount of
  waiting adds an invocation to the one \<open>flush\<close> made.
\<close>

theorem flush_invokes_once:
  "world (flush recorder s0) = world s0 @ [(now s0, [])] \<and>
   now (flush recorder s0) = now s0 \<and>
   (let s = run ms acts (boot t0); s' = flush recorder s in
      world s' = world s @ [(now s, [])] \<and> timers s' = [] \<and>
      world (advance recorder d s') = world s')"
proof -
  have st: "single_timer (run ms acts (boot t0))"
    by (simp add: single_timer_run single_timer_boot)
  show ?thesis
    by (simp add: Let_def flush_frame clear_single[OF st] recorder_def advance_idle)
qed

text \<open>
  \<open>flush\<close> with nothing pending, and \<open>flush\<close> 10 ms after a call: one invocation each
  time, and the cancelled timer never fires.
\<close>

theorem flush_invokes_once_witness:
  "world (flush recorder (run 1000 [] (boot 0)) :: nat observed) = [(0, [])] \<and>
   world (advance recorder 5000 (flush recorder (run 1000 [Call [7::nat], Wait 10] (boot 0)))) =
     [(10, [])]"
  using flush_invokes_once[of "boot 0 :: nat observed" 1000 "[]" 0 0]
    flush_invokes_once[of "boot 0 :: nat observed" 1000 "[Call [7::nat], Wait 10]" 0 5000]
  by (simp add: run_def boot_def host_defs)

section \<open>The persistence manager: guards, loading and failures\<close>

lemmas mgr_defs =
  exec_def init_def onStateChange_def updateSnapshot_def debouncedSave_def
  debouncedSave_flush_def forceSave_def loadCanvas_def loadCanvas_settled_def save_def
  save_settled_def setCanvasId_def setErrorHandler_def createNewCanvas_def truthy_def

lemma fold_onStateChange_loading:
  "isLoading (world s) \<Longrightarrow> fold onStateChange snapshots s = s"
  by (induction snapshots) (simp_all add: onStateChange_def)

text \<open>
  Claim C2. While \<open>isLoading\<close> is true, a call of \<open>onStateChange\<close>, and any number of
  them, leaves the whole state as it is: the current snapshot, the timer table and the
  handle of the debounced save, the writes issued. Whatever time passes afterwards, the
  manager does what it would have done without the call.
\<close>

theorem onStateChange_noop_while_loading:
  assumes "isLoading (world s)"
  shows "onStateChange snapshot s = s \<and> fold onStateChange snapshots s = s \<and>
         advance fire d (onStateChange snapshot s) = advance fire d s"
  using assms by (simp add: fold_onStateChange_loading) (simp add: onStateChange_def)

text \<open>A change notification while the load of canvas c1 is in flight.\<close>

theorem onStateChange_noop_while_loading_witness:
  "isLoading (world (loadCanvas ''c1'' (init 0 :: (nat, string) session))) \<and>
   onStateChange \<lparr>appState = ''A'', nodes = [1::nat]\<rparr> (loadCanvas ''c1'' (init 0)) =
     loadCanvas ''c1'' (init 0)"
  using onStateChange_noop_while_loading[of "loadCanvas ''c1'' (init 0 :: (nat, string) session)"
      "\<lparr>appState = ''A'', nodes = [1::nat]\<rparr>" "[]" 0]
  by (simp add: loadCanvas_def init_def)

text \<open>
  Claim C3. If \<open>save\<close> issues a write, then the manager has an id, has a snapshot and is
  not loading. If the id is none, or the snapshot is none, or the manager is loading,
  \<open>save\<close> returns the manager unchanged. (An id that is the empty string is falsy and
  stops the write as well.) With a non-empty id, a snapshot and no load in progress, one
  write is issued.
\<close>

theorem save_guard:
  "(saveCanvasCalls (save at m) \<noteq> saveCanvasCalls m \<longrightarrow>
      canvasId m \<noteq> None \<and> currentSnapshot m \<noteq> None \<and> \<not> isLoading m) \<and>
   (canvasId m = None \<or> currentSnapshot m = None \<or> isLoading m \<longrightarrow> save at m = m) \<and>
   (truthy (canvasId m) \<and> currentSnapshot m \<noteq> None \<and> \<not> isLoading m \<longrightarrow>
      length (saveCanvasCalls (save at m)) = Suc (length (saveCanvasCalls m)))"
  by (auto simp: save_def truthy_def split: option.splits)

text \<open>A fresh manager has no id and writes nothing; with an id and a snapshot it writes once.\<close>

theorem save_guard_witness:
  "save 5 (world (init 0 :: (nat, string) session)) = world (init 0) \<and>
   length (saveCanvasCalls (save 5 (world (exec
      [SetCanvasId ''c1'' None, UpdateSnapshot \<lparr>appState = ''A'', nodes = [1::nat]\<rparr>] (init 0))))) = 1"
  using save_guard[of 5 "world (init 0 :: (nat, string) session)"]
    save_guard[of 5 "world (exec
      [SetCanvasId ''c1'' None, UpdateSnapshot \<lparr>appState = ''A'', nodes = [1::nat]\<rparr>] (init 0))"]
  by (simp add: mgr_defs host_defs)

lemma fire_session:
  "canvasId (fire c at m) = canvasId m"
  "canvasName (fire c at m) = canvasName m"
  "createdAt (fire c at m) = createdAt m"
  "currentSnapshot (fire c at m) = currentSnapshot m"
  "onSaveError (fire c at m) = onSaveError m"
  "handled (fire c at m) = handled m"
  "loadCanvasCalls (fire c at m) = loadCanvasCalls m"
  by (cases c; simp add: save_def split: option.splits)+

lemma foldl_fire_session:
  "canvasId (foldl (\<lambda>w e. fire (snd (snd e)) (stamp e) w) m es) = canvasId m"
  "canvasName (foldl (\<lambda>w e. fire (snd (snd e)) (stamp e) w) m es) = canvasName m"
  "createdAt (foldl (\<lambda>w e. fire (snd (snd e)) (stamp e) w) m es) = createdAt m"
  "currentSnapshot (foldl (\<lambda>w e. fire (snd (snd e)) (stamp e) w) m es) = currentSnapshot m"
  "onSaveError (foldl (\<lambda>w e. fire (snd (snd e)) (stamp e) w) m es) = onSaveError m"
  "handled (foldl (\<lambda>w e. fire (snd (snd e)) (stamp e) w) m es) = handled m"
  by (induction es arbitrary: m; simp add: fire_session)+

lemma advance_fire_session:
  "canvasId (world (advance fire d s)) = canvasId (world s)"
  "canvasName (world (advance fire d s)) = canvasName (world s)"
  "createdAt (world (advance fire d s)) = createdAt (world s)"
  "currentSnapshot (world (advance fire d s)) = currentSnapshot (world s)"
  "onSaveError (world (advance fire d s)) = onSaveError (world s)"
  "handled (world (advance fire d s)) = handled (world s)"
  by (simp_all add: advance_def Let_def foldl_fire_session)

text \<open>
  Claim C5. When the storage read fails with \<open>e\<close>, the promise of \<open>loadCanvas\<close> is
  rejected with \<open>e\<close>, and the id, the name, the creation time and the current snapshot
  are what they were: across the resolution taken alone, in any state, and across the
  whole call, from \<open>loadCanvas i\<close> through any time \<open>d\<close> the read is in flight to the
  rejection.
\<close>

theorem loadCanvas_failure_atomic:
  "(case loadCanvas_settled (Inl e) s of (r, s') \<Rightarrow>
      r = Inl e \<and>
      canvasId (world s') = canvasId (world s) \<and>
      canvasName (world s') = canvasName (world s) \<and>
      createdAt (world s') = createdAt (world s) \<and>
      currentSnapshot (world s') = currentSnapshot (world s)) \<and>
   (case loadCanvas_settled (Inl e) (advance fire d (loadCanvas i s)) of (r, s') \<Rightarrow>
      r = Inl e \<and>
      canvasId (world s') = canvasId (world s) \<and>
      canvasName (world s') = canvasName (world s) \<and>
      createdAt (world s') = createdAt (world s) \<and>
      currentSnapshot (world s') = currentSnapshot (world s))"
  by (simp add: loadCanvas_settled_def setTimeout_def advance_fire_session Let_def)
     (simp add: loadCanvas_def)

text \<open>A read that fails after 30 ms: the error comes back and the manager still has no id.\<close>

theorem loadCanvas_failure_atomic_witness:
  "fst (loadCanvas_settled (Inl (Error ''unavailable''))
      (advance fire 30 (loadCanvas ''c1'' (init 0 :: (nat, string) session)))) =
     Inl (Error ''unavailable'') \<and>
   canvasId (world (snd (loadCanvas_settled (Inl (Error ''unavailable''))
      (advance fire 30 (loadCanvas ''c1'' (init 0 :: (nat, string) session)))))) = None"
  using loadCanvas_failure_atomic[of "Error ''unavailable''" "init 0 :: (nat, string) session" 30 "''c1''"]
  by (simp add: case_prod_unfold init_def)

lemma debounced_world: "world (debounced thunk ms args s) = world s"
  by (simp add: debounced_def setTimeout_def clearTimeout_def split: option.splits)



lemma onStateChange_arms:
  assumes "\<not> isLoading (world s)" "truthy (canvasId (world s))" "timers s = []"
  shows "timers (onStateChange snapshot s) = [(nextHandle s, now s + 1000, SaveThunk)]"
    and "world (onStateChange snapshot s) = (world s)\<lparr>currentSnapshot := Some snapshot\<rparr>"
    and "now (onStateChange snapshot s) = now s"
  using assms
  by (simp_all add: onStateChange_def debouncedSave_def debounced_def setTimeout_def clearTimeout_def
      split: option.splits)

lemma save_writes:
  assumes "\<not> isLoading m" "truthy (canvasId m)" "currentSnapshot m = Some snap"
  shows "save at m = m\<lparr>saveCanvasCalls := saveCanvasCalls m @
           [\<lparr>CanvasMetadata.id = the (canvasId m), name = canvasName m,
             CanvasMetadata.createdAt = createdAt m, updatedAt = at,
             CanvasData.nodes = Snapshot.nodes snap, CanvasData.appState = Snapshot.appState snap\<rparr>]\<rparr>"
  using assms by (auto simp: save_def truthy_def split: option.splits)

lemma save_chain:
  assumes "\<not> isLoading (world s)" "truthy (canvasId (world s))" "timers s = []"
  shows "world (exec [OnStateChange snapshot, Elapse 1000] s) =
           (world s)\<lparr>currentSnapshot := Some snapshot,
             saveCanvasCalls := saveCanvasCalls (world s) @
               [\<lparr>CanvasMetadata.id = the (canvasId (world s)), name = canvasName (world s),
                 CanvasMetadata.createdAt = createdAt (world s), updatedAt = now s + 1000,
                 CanvasData.nodes = Snapshot.nodes snapshot,
                 CanvasData.appState = Snapshot.appState snapshot\<rparr>]\<rparr>"
proof -
  note a = onStateChange_arms[OF assms, of snapshot]
  have "world (advance fire 1000 (onStateChange snapshot s)) =
          save (now s + 1000) ((world s)\<lparr>currentSnapshot := Some snapshot\<rparr>)"
    by (simp add: advance_one[OF a(1)] a)
  also have "\<dots> = (world s)\<lparr>currentSnapshot := Some snapshot,
             saveCanvasCalls := saveCanvasCalls (world s) @
               [\<lparr>CanvasMetadata.id = the (canvasId (world s)), name = canvasName (world s),
                 CanvasMetadata.createdAt = createdAt (world s), updatedAt = now s + 1000,
                 CanvasData.nodes = Snapshot.nodes snapshot,
                 CanvasData.appState = Snapshot.appState snapshot\<rparr>]\<rparr>"
    using assms by (subst save_writes[where snap = snapshot]) simp_all
  finally show ?thesis by (simp add: exec_def)
qed

lemma exec_snoc: "exec (evs @ [ev]) s = step ev (exec evs s)"
  by (simp add: exec_def)

lemma onStateChange_world:
  "world (onStateChange snapshot s) = world s \<or>
   world (onStateChange snapshot s) = (world s)\<lparr>currentSnapshot := Some snapshot\<rparr>"
  by (simp add: onStateChange_def debouncedSave_def debounced_world)

text \<open>What the end of a write does to the logs of a manager; nothing else changes.\<close>

lemma step_SaveSettled:
  "step (SaveSettled r) s =
     s\<lparr>world := (world s)
       \<lparr>handled := handled (world s) @
          (case r of Inr u \<Rightarrow> []
           | Inl e \<Rightarrow> (case onSaveError (world s) of None \<Rightarrow> [] | Some handler \<Rightarrow> [e])),
        unhandledRejections := unhandledRejections (world s) @
          (case r of Inr u \<Rightarrow> []
           | Inl e \<Rightarrow> (case onSaveError (world s) of None \<Rightarrow> []
               | Some handler \<Rightarrow> (case handler e of None \<Rightarrow> [] | Some e' \<Rightarrow> [e'])))\<rparr>\<rparr>"
  by (simp add: save_settled_def split: sum.splits option.splits)

text \<open>
  Claim C7, as the code has it. When the storage write fails with \<open>e\<close>, the error is
  caught: it is handed once to the error handler registered at that moment, or dropped
  when there is none. The promise of \<open>save\<close> is rejected in one case only, a registered
  handler that itself throws, and then with what the handler threw; a write that
  succeeds fulfils it. \<open>onStateChange\<close> hands nothing to a handler and rejects nothing.
  The end of a write changes the two logs of the manager and nothing else. Along the
  chain that starts at \<open>onStateChange\<close> (manager not loading, id set, no timer
  pending) the debounced save issues its write after 1000 ms; when that write fails,
  the handler has received \<open>e\<close>, and what the handler threw, if it threw, is an
  unhandled rejection: no caller holds the promise of \<open>save\<close>.
\<close>

theorem save_failure_contained:
  "save_settled (Inl e) m =
     (case onSaveError m of
        None \<Rightarrow> (Inr (), m)
      | Some handler \<Rightarrow>
          ((case handler e of None \<Rightarrow> Inr () | Some e' \<Rightarrow> Inl e'),
           m\<lparr>handled := handled m @ [e]\<rparr>)) \<and>
   save_settled (Inr ()) m = (Inr (), m) \<and>
   isl (fst (save_settled r m)) =
     (case r of
        Inr u \<Rightarrow> False
      | Inl e \<Rightarrow> (case onSaveError m of None \<Rightarrow> False | Some handler \<Rightarrow> handler e \<noteq> None)) \<and>
   handled (world (onStateChange snapshot s)) = handled (world s) \<and>
   unhandledRejections (world (onStateChange snapshot s)) = unhandledRejections (world s) \<and>
   step (SaveSettled (Inl e)) s =
     s\<lparr>world := (world s)
       \<lparr>handled := handled (world s) @
          (case onSaveError (world s) of None \<Rightarrow> [] | Some handler \<Rightarrow> [e]),
        unhandledRejections := unhandledRejections (world s) @
          (case onSaveError (world s) of None \<Rightarrow> []
           | Some handler \<Rightarrow> (case handler e of None \<Rightarrow> [] | Some e' \<Rightarrow> [e']))\<rparr>\<rparr> \<and>
   (\<not> isLoading (world s) \<and> truthy (canvasId (world s)) \<and> timers s = [] \<longrightarrow>
      length (saveCanvasCalls (world (exec [OnStateChange snapshot, Elapse 1000] s))) =
        Suc (length (saveCanvasCalls (world s))) \<and>
      handled (world (exec [OnStateChange snapshot, Elapse 1000, SaveSettled (Inl e)] s)) =
        handled (world s) @
          (case onSaveError (world s) of None \<Rightarrow> [] | Some handler \<Rightarrow> [e]) \<and>
      unhandledRejections
          (world (exec [OnStateChange snapshot, Elapse 1000, SaveSettled (Inl e)] s)) =
        unhandledRejections (world s) @
          (case onSaveError (world s) of None \<Rightarrow> []
           | Some handler \<Rightarrow> (case handler e of None \<Rightarrow> [] | Some e' \<Rightarrow> [e'])))"
proof (intro conjI impI)
  show "save_settled (Inl e) m =
     (case onSaveError m of
        None \<Rightarrow> (Inr (), m)
      | Some handler \<Rightarrow>
          ((case handler e of None \<Rightarrow> Inr () | Some e' \<Rightarrow> Inl e'),
           m\<lparr>handled := handled m @ [e]\<rparr>))"
    by (simp add: save_settled_def split: option.splits)
  show "save_settled (Inr ()) m = (Inr (), m)"
    by (simp add: save_settled_def)
  show "isl (fst (save_settled r m)) =
     (case r of
        Inr u \<Rightarrow> False
      | Inl e \<Rightarrow> (case onSaveError m of None \<Rightarrow> False | Some handler \<Rightarrow> handler e \<noteq> None))"
    by (auto simp: save_settled_def split: option.splits sum.splits)
  show "handled (world (onStateChange snapshot s)) = handled (world s)"
    using onStateChange_world[of snapshot s] by auto
  show "unhandledRejections (world (onStateChange snapshot s)) = unhandledRejections (world s)"
    using onStateChange_world[of snapshot s] by auto
  show "step (SaveSettled (Inl e)) s =
     s\<lparr>world := (world s)
       \<lparr>handled := handled (world s) @
          (case onSaveError (world s) of None \<Rightarrow> [] | Some handler \<Rightarrow> [e]),
        unhandledRejections := unhandledRejections (world s) @
          (case onSaveError (world s) of None \<Rightarrow> []
           | Some handler \<Rightarrow> (case handler e of None \<Rightarrow> [] | Some e' \<Rightarrow> [e']))\<rparr>\<rparr>"
    by (subst step_SaveSettled) simp
next
  assume h: "\<not> isLoading (world s) \<and> truthy (canvasId (world s)) \<and> timers s = []"
  then have c: "\<not> isLoading (world s)" "truthy (canvasId (world s))" "timers s = []"
    by simp_all
  show "length (saveCanvasCalls (world (exec [OnStateChange snapshot, Elapse 1000] s))) =
        Suc (length (saveCanvasCalls (world s)))"
    by (simp add: save_chain[OF c])
  have x: "exec [OnStateChange snapshot, Elapse 1000, SaveSettled (Inl e)] s =
        step (SaveSettled (Inl e)) (exec [OnStateChange snapshot, Elapse 1000] s)"
    using exec_snoc[of "[OnStateChange snapshot, Elapse 1000]"] by simp
  show "handled (world (exec [OnStateChange snapshot, Elapse 1000, SaveSettled (Inl e)] s)) =
        handled (world s) @
          (case onSaveError (world s) of None \<Rightarrow> [] | Some handler \<Rightarrow> [e])"
    unfolding x by (subst step_SaveSettled) (simp add: save_chain[OF c])
  show "unhandledRejections
          (world (exec [OnStateChange snapshot, Elapse 1000, SaveSettled (Inl e)] s)) =
        unhandledRejections (world s) @
          (case onSaveError (world s) of None \<Rightarrow> []
           | Some handler \<Rightarrow> (case handler e of None \<Rightarrow> [] | Some e' \<Rightarrow> [e']))"
    unfolding x by (subst step_SaveSettled) (simp add: save_chain[OF c])
qed

text \<open>
  The write of the debounced save of canvas c1 fails. A handler that returns receives
  the error and nothing is rejected; without a handler nothing is recorded at all.
\<close>

theorem save_failure_contained_witness:
  "handled (world (exec
      [OnStateChange \<lparr>appState = ''A'', nodes = [1::nat]\<rparr>, Elapse 1000,
       SaveSettled (Inl (Error ''quota''))]
      (exec [SetCanvasId ''c1'' None, SetErrorHandler returning] (init 0)))) = [Error ''quota''] \<and>
   unhandledRejections (world (exec
      [OnStateChange \<lparr>appState = ''A'', nodes = [1::nat]\<rparr>, Elapse 1000,
       SaveSettled (Inl (Error ''quota''))]
      (exec [SetCanvasId ''c1'' None, SetErrorHandler returning] (init 0)))) = [] \<and>
   handled (world (exec
      [OnStateChange \<lparr>appState = ''A'', nodes = [1::nat]\<rparr>, Elapse 1000,
       SaveSettled (Inl (Error ''quota''))]
      (exec [SetCanvasId ''c1'' None] (init 0)))) = []"
  using save_failure_contained[of "Error ''quota''" "world (init 0 :: (nat, string) session)" "Inr ()"
      "\<lparr>appState = ''A'', nodes = [1::nat]\<rparr>"
      "exec [SetCanvasId ''c1'' None, SetErrorHandler returning] (init 0)"]
    save_failure_contained[of "Error ''quota''" "world (init 0 :: (nat, string) session)" "Inr ()"
      "\<lparr>appState = ''A'', nodes = [1::nat]\<rparr>"
      "exec [SetCanvasId ''c1'' None] (init 0)"]
  by (simp add: exec_def init_def setCanvasId_def setErrorHandler_def truthy_def returning_def)

text \<open>
  Claim C7, as it is worded, fails: the debounced save can end in an error. The handler
  registered for canvas c1 throws the error it is given; the write fails; the promise
  of \<open>save\<close> is rejected with that error, which surfaces as an unhandled rejection.
\<close>

theorem save_rejected_when_handler_throws:
  "fst (save_settled (Inl (Error ''quota''))
      (world (exec [SetCanvasId ''c1'' None, SetErrorHandler rethrowing]
         (init 0 :: (nat, string) session)))) = Inl (Error ''quota'') \<and>
   unhandledRejections (world (exec
      [SetCanvasId ''c1'' None, SetErrorHandler rethrowing,
       OnStateChange \<lparr>appState = ''A'', nodes = [1::nat]\<rparr>, Elapse 1000,
       SaveSettled (Inl (Error ''quota''))] (init 0))) = [Error ''quota'']"
  by (simp add: mgr_defs host_defs rethrowing_def)

section \<open>Listing the stored canvases\<close>

lemma mset_insert_by: "mset (insert_by cmp x ys) = add_mset x (mset ys)"
  by (induction ys) simp_all

lemma mset_array_sort: "mset (array_sort cmp xs) = mset xs"
  unfolding array_sort_def by (induction xs) (simp_all add: mset_insert_by)

lemma set_insert_by: "set (insert_by cmp x ys) = insert x (set ys)"
  by (induction ys) auto

lemma sorted_insert_by:
  "sorted_wrt (\<lambda>a b. updatedAt b \<le> updatedAt a) ys \<Longrightarrow>
   sorted_wrt (\<lambda>a b. updatedAt b \<le> updatedAt a) (insert_by by_updatedAt_desc x ys)"
  by (induction ys) (auto simp: set_insert_by by_updatedAt_desc_def)

lemma sorted_array_sort:
  "sorted_wrt (\<lambda>a b. updatedAt b \<le> updatedAt a) (array_sort by_updatedAt_desc xs)"
  unfolding array_sort_def by (induction xs) (simp_all add: sorted_insert_by)

text \<open>The sort is stable: it never moves a record past one with the same \<open>updatedAt\<close>.\<close>

lemma filter_insert_by:
  "filter (\<lambda>m. updatedAt m = t) (insert_by by_updatedAt_desc x ys) =
   (if updatedAt x = t then x # filter (\<lambda>m. updatedAt m = t) ys
    else filter (\<lambda>m. updatedAt m = t) ys)"
  by (induction ys) (auto simp: by_updatedAt_desc_def)

lemma filter_array_sort:
  "filter (\<lambda>m. updatedAt m = t) (array_sort by_updatedAt_desc xs) =
   filter (\<lambda>m. updatedAt m = t) xs"
  unfolding array_sort_def by (induction xs) (simp_all add: filter_insert_by)

lemma descending_distinct:
  "sorted_wrt (\<lambda>a b. b \<le> a) ts \<Longrightarrow> distinct ts \<Longrightarrow> sorted_wrt (\<lambda>a b. b < (a::nat)) ts"
  by (induction ts) (auto simp: le_less)

lemma updatedAt_metadata_of: "updatedAt (metadata_of c) = updatedAt c"
  by (simp add: metadata_of_def)

text \<open>
  Claim C9, as the code has it. When the database is open and \<open>getAll\<close> succeeds with
  \<open>canvases\<close>, \<open>listCanvases\<close> resolves with the metadata (id, name, createdAt,
  updatedAt) of every record, each as often as it is stored, in descending order of
  \<open>updatedAt\<close>: no entry is older than the one after it. Records with the same
  \<open>updatedAt\<close> keep the order in which the store returned them. The order is strictly
  descending when no two records have the same \<open>updatedAt\<close>.
\<close>

theorem listCanvases_descending:
  "(case listCanvases None (Succeeded canvases) of
      Inl e \<Rightarrow> False
    | Inr ms \<Rightarrow>
        mset ms = mset (map metadata_of canvases) \<and>
        descending (map updatedAt ms) \<and>
        filter (\<lambda>m. updatedAt m = t) ms =
          filter (\<lambda>m. updatedAt m = t) (map metadata_of canvases) \<and>
        (distinct (map updatedAt canvases) \<longrightarrow> strictly_descending (map updatedAt ms))) \<and>
   CanvasMetadata.id (metadata_of c) = CanvasMetadata.id c \<and>
   name (metadata_of c) = name c \<and>
   CanvasMetadata.createdAt (metadata_of c) = CanvasMetadata.createdAt c \<and>
   updatedAt (metadata_of c) = updatedAt c"
proof -
  let ?ms = "array_sort by_updatedAt_desc (map metadata_of canvases)"
  have d: "descending (map updatedAt ?ms)"
    by (simp add: descending_def sorted_wrt_map sorted_array_sort)
  have "mset (map updatedAt ?ms) = mset (map updatedAt canvases)"
    by (simp add: mset_array_sort multiset.map_comp comp_def updatedAt_metadata_of)
  then have "distinct (map updatedAt canvases) \<Longrightarrow> distinct (map updatedAt ?ms)"
    by (metis mset_eq_imp_distinct_iff)
  with d have "distinct (map updatedAt canvases) \<Longrightarrow> strictly_descending (map updatedAt ?ms)"
    unfolding descending_def strictly_descending_def by (rule descending_distinct)
  with d show ?thesis
    by (simp add: listCanvases_def mset_array_sort filter_array_sort) (simp add: metadata_of_def)
qed

text \<open>Three records updated at 100, 300 and 200 are listed in the order 300, 200, 100.\<close>

theorem listCanvases_descending_witness:
  "listCanvases None (Succeeded
      [\<lparr>CanvasMetadata.id = ''x'', name = ''X'', CanvasMetadata.createdAt = 1, updatedAt = 100,
        CanvasData.nodes = [1::nat], CanvasData.appState = ''A''\<rparr>,
       \<lparr>CanvasMetadata.id = ''y'', name = ''Y'', CanvasMetadata.createdAt = 2, updatedAt = 300,
        CanvasData.nodes = [], CanvasData.appState = ''B''\<rparr>,
       \<lparr>CanvasMetadata.id = ''z'', name = ''Z'', CanvasMetadata.createdAt = 3, updatedAt = 200,
        CanvasData.nodes = [], CanvasData.appState = ''C''\<rparr>]) =
   Inr [\<lparr>CanvasMetadata.id = ''y'', name = ''Y'', CanvasMetadata.createdAt = 2, updatedAt = 300\<rparr>,
        \<lparr>CanvasMetadata.id = ''z'', name = ''Z'', CanvasMetadata.createdAt = 3, updatedAt = 200\<rparr>,
        \<lparr>CanvasMetadata.id = ''x'', name = ''X'', CanvasMetadata.createdAt = 1, updatedAt = 100\<rparr>] \<and>
   strictly_descending [300, 200, 100]"
  using listCanvases_descending[of
      "[\<lparr>CanvasMetadata.id = ''x'', name = ''X'', CanvasMetadata.createdAt = 1, updatedAt = 100,
        CanvasData.nodes = [1::nat], CanvasData.appState = ''A''\<rparr>,
       \<lparr>CanvasMetadata.id = ''y'', name = ''Y'', CanvasMetadata.createdAt = 2, updatedAt = 300,
        CanvasData.nodes = [], CanvasData.appState = ''B''\<rparr>,
       \<lparr>CanvasMetadata.id = ''z'', name = ''Z'', CanvasMetadata.createdAt = 3, updatedAt = 200,
        CanvasData.nodes = [], CanvasData.appState = ''C''\<rparr>]" 100]
  by (simp add: listCanvases_def array_sort_def metadata_of_def by_updatedAt_desc_def)

text \<open>
  Claim C9, as it is worded, fails: two stored records updated at the same time 100 are
  both listed, and a list with the stamps 100, 100 is not strictly descending.
\<close>

theorem listCanvases_not_strict:
  "listCanvases None (Succeeded
      [\<lparr>CanvasMetadata.id = ''x'', name = ''X'', CanvasMetadata.createdAt = 1, updatedAt = 100,
        CanvasData.nodes = [1::nat], CanvasData.appState = ''A''\<rparr>,
       \<lparr>CanvasMetadata.id = ''y'', name = ''Y'', CanvasMetadata.createdAt = 2, updatedAt = 100,
        CanvasData.nodes = [], CanvasData.appState = ''B''\<rparr>]) =
   Inr [\<lparr>CanvasMetadata.id = ''x'', name = ''X'', CanvasMetadata.createdAt = 1, updatedAt = 100\<rparr>,
        \<lparr>CanvasMetadata.id = ''y'', name = ''Y'', CanvasMetadata.createdAt = 2, updatedAt = 100\<rparr>] \<and>
   \<not> strictly_descending (map updatedAt
       [\<lparr>CanvasMetadata.id = ''x'', name = ''X'', CanvasMetadata.createdAt = 1, updatedAt = 100\<rparr>,
        \<lparr>CanvasMetadata.id = ''y'', name = ''Y'', CanvasMetadata.createdAt = 2, updatedAt = 100\<rparr>])"
  by (simp add: listCanvases_def array_sort_def metadata_of_def by_updatedAt_desc_def
      strictly_descending_def)

section \<open>The loading lock and its release\<close>

lemma save_isLoading: "isLoading (save at m) = isLoading m"
  by (simp add: save_def split: option.splits)

text \<open>Only the release callback touches the lock, and it can only lower it.\<close>

lemma foldl_fire_isLoading:
  "isLoading (foldl (\<lambda>w e. fire (snd (snd e)) (stamp e) w) m es) =
     (if list_all (\<lambda>e. snd (snd e) \<noteq> ReleaseLoading) es then isLoading m else False)"
proof (induction es arbitrary: m)
  case Nil
  show ?case by simp
next
  case (Cons e es)
  show ?case
    by (cases "snd (snd e)") (simp_all add: Cons.IH save_isLoading)
qed

lemma advance_isLoading:
  "isLoading (world (advance fire d s)) =
     (if list_all (\<lambda>e. snd (snd e) \<noteq> ReleaseLoading) (filter (due (now s + d)) (timers s))
      then isLoading (world s) else False)"
  by (simp add: advance_def Let_def foldl_fire_isLoading list_all_iff)

lemma loadCanvas_settled_frame:
  "fst (loadCanvas_settled r s) = r"
  "isLoading (world (snd (loadCanvas_settled r s))) = isLoading (world s)"
  "timers (snd (loadCanvas_settled r s)) = timers s @ [(nextHandle s, now s + 100, ReleaseLoading)]"
  "now (snd (loadCanvas_settled r s)) = now s"
  by (simp_all add: loadCanvas_settled_def Let_def setTimeout_def split: sum.splits option.splits)

lemma no_release_advance: "no_release_pending s \<Longrightarrow> no_release_pending (advance fire d s)"
  by (simp add: no_release_pending_def advance_frame list_all_iff)

lemma no_release_filter:
  "no_release_pending s \<Longrightarrow> list_all (\<lambda>e. snd (snd e) \<noteq> ReleaseLoading) (filter P (timers s))"
  by (simp add: no_release_pending_def list_all_iff)

text \<open>
  What the resolution of a load does to the lock. Whatever the outcome \<open>r\<close> of the read
  (a record, no record, an error) and whatever the state, the resolution passes \<open>r\<close>
  on, does not touch \<open>isLoading\<close> itself, and registers the release of the lock for 100
  ms later. That release is still pending as long as less than 100 ms have passed; once
  100 ms have passed it has run and \<open>isLoading\<close> is false. When no release scheduled by
  an earlier load is pending, the lock keeps, all through the 100 ms, the value it had
  at the resolution; and over the whole call, started in such a state, with the read in
  flight for any time \<open>w\<close>, the lock is true exactly until 100 ms after the resolution.
\<close>

lemma release_after_settle_delay:
  "(case loadCanvas_settled r s of (res, s1) \<Rightarrow>
      res = r \<and> isLoading (world s1) = isLoading (world s) \<and>
      timers s1 = timers s @ [(nextHandle s, now s + 100, ReleaseLoading)] \<and>
      (d < 100 \<longrightarrow> (nextHandle s, now s + 100, ReleaseLoading) \<in> set (timers (advance fire d s1))) \<and>
      (100 \<le> d \<longrightarrow> (nextHandle s, now s + 100, ReleaseLoading) \<notin> set (timers (advance fire d s1)) \<and>
         \<not> isLoading (world (advance fire d s1))) \<and>
      (d < 100 \<and> no_release_pending s \<longrightarrow>
         isLoading (world (advance fire d s1)) = isLoading (world s))) \<and>
   (no_release_pending s \<longrightarrow>
      isLoading (world (advance fire d
        (snd (loadCanvas_settled r (advance fire w (loadCanvas i s)))))) = (d < 100))"
proof -
  let ?s1 = "snd (loadCanvas_settled r s)"
  note f = loadCanvas_settled_frame[of r s]
  have a: "100 \<le> d \<Longrightarrow> \<not> isLoading (world (advance fire d ?s1))"
    by (simp add: advance_isLoading f due_def)
  have p: "d < 100 \<Longrightarrow> (nextHandle s, now s + 100, ReleaseLoading) \<in> set (timers (advance fire d ?s1))"
    by (simp add: advance_frame f due_def)
  have q: "100 \<le> d \<Longrightarrow> (nextHandle s, now s + 100, ReleaseLoading) \<notin> set (timers (advance fire d ?s1))"
    by (simp add: advance_frame f due_def)
  have b: "d < 100 \<Longrightarrow> no_release_pending s \<Longrightarrow>
      isLoading (world (advance fire d ?s1)) = isLoading (world s)"
    by (simp add: advance_isLoading f due_def no_release_filter)
  have c: "isLoading (world (advance fire d
        (snd (loadCanvas_settled r (advance fire w (loadCanvas i s)))))) = (d < 100)"
    if n: "no_release_pending s"
  proof -
    let ?b = "loadCanvas i s"
    let ?m = "advance fire w ?b"
    have nb: "no_release_pending ?b"
      using n by (simp add: no_release_pending_def loadCanvas_def)
    have lm: "isLoading (world ?m)"
      by (simp add: advance_isLoading no_release_filter[OF nb]) (simp add: loadCanvas_def)
    have nm: "no_release_pending ?m"
      by (rule no_release_advance[OF nb])
    note g = loadCanvas_settled_frame[of r ?m]
    show ?thesis
      using lm by (simp add: advance_isLoading[of d] g due_def no_release_filter[OF nm])
  qed
  from a b c p q f show ?thesis
    by (simp add: case_prod_unfold)
qed

text \<open>
  Claim C6 says that the lock falls only 100 ms after the resolution of a load, at every
  resolution. The manager does not keep that when loads overlap, because the release a
  load schedules is never cancelled. A first load resolves at time 0; a second one
  starts at 50 and resolves at 60. The lock is still held at time 99, and the release
  of the first load drops it at time 100, that is 40 ms after the second resolution,
  not 100. The same release drops the lock at time 100 when the second read is still
  in flight, although the manager is to ignore changes while a canvas is loading.
\<close>

theorem lock_dropped_by_earlier_release:
  "isLoading (world (exec
      [LoadCanvas ''a'', LoadSettled (Inr None), Elapse 50, LoadCanvas ''b'', Elapse 10,
       LoadSettled (Inr None), Elapse 39] (init 0 :: (nat, string) session))) \<and>
   \<not> isLoading (world (exec
      [LoadCanvas ''a'', LoadSettled (Inr None), Elapse 50, LoadCanvas ''b'', Elapse 10,
       LoadSettled (Inr None), Elapse 40] (init 0 :: (nat, string) session))) \<and>
   \<not> isLoading (world (exec
      [LoadCanvas ''a'', LoadSettled (Inr None), Elapse 50, LoadCanvas ''b'', Elapse 50]
      (init 0 :: (nat, string) session)))"
  by (simp add: mgr_defs host_defs)

section \<open>The records a manager writes\<close>

lemma carryI:
  assumes "saveCanvasCalls m' = saveCanvasCalls m @ ws"
    and "\<forall>r \<in> set ws. CanvasMetadata.createdAt r = c"
  shows "writes_carry c m m'"
  using assms by (simp add: writes_carry_def list_all_iff)

lemma carryD:
  assumes "writes_carry c m m'"
  obtains ws where "saveCanvasCalls m' = saveCanvasCalls m @ ws"
    "\<forall>r \<in> set ws. CanvasMetadata.createdAt r = c"
proof -
  let ?ws = "drop (length (saveCanvasCalls m)) (saveCanvasCalls m')"
  have "saveCanvasCalls m' = saveCanvasCalls m @ ?ws"
    using assms by (metis append_take_drop_id writes_carry_def)
  with assms that[of ?ws] show ?thesis
    by (simp add: writes_carry_def list_all_iff)
qed

lemma carry_frame: "saveCanvasCalls m' = saveCanvasCalls m \<Longrightarrow> writes_carry c m m'"
  by (rule carryI[where ws = "[]"]) simp_all

lemma carry_trans:
  assumes "writes_carry c m1 m2" "writes_carry c m2 m3"
  shows "writes_carry c m1 m3"
proof -
  from assms(1) obtain ws where 1: "saveCanvasCalls m2 = saveCanvasCalls m1 @ ws"
    "\<forall>r \<in> set ws. CanvasMetadata.createdAt r = c"
    by (rule carryD)
  from assms(2) obtain vs where 2: "saveCanvasCalls m3 = saveCanvasCalls m2 @ vs"
    "\<forall>r \<in> set vs. CanvasMetadata.createdAt r = c"
    by (rule carryD)
  show ?thesis
    by (rule carryI[where ws = "ws @ vs"]) (use 1 2 in auto)
qed

lemma carry_save: "writes_carry (createdAt m) m (save at m)"
proof (cases "\<not> truthy (canvasId m) \<or> currentSnapshot m = None \<or> isLoading m")
  case True
  then have "save at m = m" by (simp add: save_def)
  then show ?thesis by (simp add: carry_frame)
next
  case False
  then obtain cid snap where c: "canvasId m = Some cid" "currentSnapshot m = Some snap"
    by (auto simp: truthy_def split: option.splits)
  show ?thesis
    by (rule carryI[where ws = "[\<lparr>CanvasMetadata.id = cid, name = canvasName m,
             CanvasMetadata.createdAt = createdAt m, updatedAt = at,
             CanvasData.nodes = Snapshot.nodes snap,
             CanvasData.appState = Snapshot.appState snap\<rparr>]"])
       (use False c in \<open>simp_all add: save_def\<close>)
qed

lemma carry_fire: "writes_carry (createdAt m) m (fire c at m)"
  by (cases c) (simp_all add: carry_save carry_frame)

lemma carry_foldl_fire:
  "writes_carry (createdAt m) m (foldl (\<lambda>w e. fire (snd (snd e)) (stamp e) w) m es)"
proof (induction es arbitrary: m)
  case Nil
  show ?case by (simp add: carry_frame)
next
  case (Cons e es)
  let ?m = "fire (snd (snd e)) (stamp e) m"
  have "writes_carry (createdAt m) ?m (foldl (\<lambda>w e. fire (snd (snd e)) (stamp e) w) ?m es)"
    using Cons.IH[of ?m] by (simp add: fire_session)
  from carry_trans[OF carry_fire this] show ?case by simp
qed

lemma carry_advance: "writes_carry (createdAt (world s)) (world s) (world (advance fire d s))"
  by (simp add: advance_def Let_def carry_foldl_fire)

lemma setTimeout_world: "world (snd (setTimeout c ms s)) = world s"
  by (simp add: setTimeout_def)

lemma onStateChange_calls:
  "saveCanvasCalls (world (onStateChange snapshot s)) = saveCanvasCalls (world s)"
  "createdAt (world (onStateChange snapshot s)) = createdAt (world s)"
  using onStateChange_world[of snapshot s] by auto

lemma updateSnapshot_calls:
  "saveCanvasCalls (world (updateSnapshot snapshot s)) = saveCanvasCalls (world s)"
  "createdAt (world (updateSnapshot snapshot s)) = createdAt (world s)"
  by (simp_all add: updateSnapshot_def onStateChange_calls)

lemma carry_forceSave: "writes_carry (createdAt (world s)) (world s) (world (forceSave s))"
  by (simp add: forceSave_def setTimeout_world debouncedSave_flush_def flush_frame carry_save)

lemma save_createdAt: "createdAt (save at m) = createdAt m"
  by (simp add: save_def split: option.splits)

lemma step_SaveSettled_frame:
  "createdAt (world (step (SaveSettled r) s)) = createdAt (world s)"
  "saveCanvasCalls (world (step (SaveSettled r) s)) = saveCanvasCalls (world s)"
  "now (step (SaveSettled r) s) = now s"
  by (subst step_SaveSettled, simp)+

text \<open>Only \<open>createNewCanvas\<close> and a load that finds a record change the creation time.\<close>

lemma createdAt_step:
  "createdAt (world (step ev s)) =
     (case ev of
        CreateNewCanvas generated nm \<Rightarrow> now s
      | LoadSettled r \<Rightarrow>
          (case r of Inr (Some data) \<Rightarrow> CanvasMetadata.createdAt data | _ \<Rightarrow> createdAt (world s))
      | _ \<Rightarrow> createdAt (world s))"
proof (cases ev)
  case (SetCanvasId i nm)
  then show ?thesis by (simp add: setCanvasId_def Let_def split: option.splits)
next
  case (LoadSettled r)
  then show ?thesis
    by (simp add: loadCanvas_settled_def setTimeout_def Let_def split: sum.splits option.splits)
next
  case (SaveSettled r)
  then show ?thesis by (simp add: step_SaveSettled_frame del: step.simps)
qed (simp_all add: setErrorHandler_def onStateChange_calls updateSnapshot_calls loadCanvas_def
      createNewCanvas_def forceSave_def setTimeout_world debouncedSave_flush_def flush_frame
      save_createdAt advance_fire_session)

text \<open>Whatever the event, the records it writes carry the creation time held before it.\<close>

lemma carry_step: "writes_carry (createdAt (world s)) (world s) (world (step ev s))"
proof (cases ev)
  case (SetCanvasId i nm)
  then show ?thesis
    by (auto simp: setCanvasId_def Let_def intro!: carry_frame split: option.splits)
next
  case (LoadSettled r)
  then show ?thesis
    by (auto simp: loadCanvas_settled_def setTimeout_def Let_def intro!: carry_frame
        split: sum.splits option.splits)
next
  case (SaveSettled r)
  then show ?thesis by (simp add: step_SaveSettled_frame carry_frame del: step.simps)
qed (simp_all add: carry_frame setErrorHandler_def onStateChange_calls updateSnapshot_calls
      loadCanvas_def createNewCanvas_def carry_forceSave carry_advance)

lemma exec_Cons: "exec (ev # evs) s = exec evs (step ev s)"
  by (simp add: exec_def)

lemma carry_exec:
  "createdAt_untouched evs s \<Longrightarrow>
   createdAt (world (exec evs s)) = createdAt (world s) \<and>
   writes_carry (createdAt (world s)) (world s) (world (exec evs s))"
proof (induction evs arbitrary: s)
  case Nil
  show ?case by (simp add: exec_def carry_frame)
next
  case (Cons ev evs)
  then have c: "createdAt (world (step ev s)) = createdAt (world s)"
    and u: "createdAt_untouched evs (step ev s)"
    by simp_all
  from Cons.IH[OF u] c
  have 1: "createdAt (world (exec evs (step ev s))) = createdAt (world s)"
    and 2: "writes_carry (createdAt (world s)) (world (step ev s)) (world (exec evs (step ev s)))"
    by simp_all
  from 1 carry_trans[OF carry_step 2] show ?case
    by (simp add: exec_Cons)
qed

lemma stamped_mono: "stamped lo m \<Longrightarrow> lo \<le> hi \<Longrightarrow> stamped hi m"
  by (auto simp: stamped_def list_all_iff)

lemma stamped_save: "stamped lo m \<Longrightarrow> lo \<le> at \<Longrightarrow> stamped at (save at m)"
  by (auto simp: stamped_def save_def list_all_iff sorted_append split: option.splits)

lemma stamped_fire:
  assumes "stamped lo m" "lo \<le> at"
  shows "stamped at (fire c at m)"
proof (cases c)
  case SaveThunk
  with assms show ?thesis by (simp add: stamped_save)
next
  case ReleaseLoading
  with stamped_mono[OF assms] show ?thesis by (simp add: stamped_def)
next
  case GraceElapsed
  with stamped_mono[OF assms] show ?thesis by simp
qed

text \<open>Callbacks that run in the order of their times stamp their writes in that order.\<close>

lemma stamped_foldl_fire:
  assumes "stamped lo m" "lo \<le> hi" "sorted (map stamp es)"
    "\<forall>e \<in> set es. lo \<le> stamp e \<and> stamp e \<le> hi"
  shows "stamped hi (foldl (\<lambda>w e. fire (snd (snd e)) (stamp e) w) m es)"
  using assms
proof (induction es arbitrary: m lo)
  case Nil
  then show ?case by (simp add: stamped_mono)
next
  case (Cons e es)
  have "stamped (stamp e) (fire (snd (snd e)) (stamp e) m)"
    using Cons.prems by (simp add: stamped_fire)
  moreover have "stamp e \<le> hi" "sorted (map stamp es)"
    "\<forall>x \<in> set es. stamp e \<le> stamp x \<and> stamp x \<le> hi"
    using Cons.prems by auto
  ultimately show ?case
    using Cons.IH[of "stamp e" "fire (snd (snd e)) (stamp e) m"] by simp
qed

lemma sorted_map_max: "sorted (map f xs) \<Longrightarrow> sorted (map (\<lambda>x. max (f x) (c::nat)) xs)"
  by (induction xs) (auto simp: max_def)

lemma stamped_advance:
  assumes "stamped (now s) (world s)"
  shows "stamped (now s + d) (world (advance fire d s))"
proof -
  let ?ready = "sort_key (\<lambda>e. fst (snd e)) (filter (due (now s + d)) (timers s))"
  have "sorted (map (\<lambda>e. max (fst (snd e)) (now s)) ?ready)"
    by (rule sorted_map_max) simp
  moreover have "\<forall>e \<in> set ?ready. now s \<le> max (fst (snd e)) (now s) \<and>
      max (fst (snd e)) (now s) \<le> now s + d"
    by (auto simp: due_def)
  ultimately have "stamped (now s + d)
      (foldl (\<lambda>w e. fire (snd (snd e)) (max (fst (snd e)) (now s)) w) (world s) ?ready)"
    using stamped_foldl_fire[OF assms, of "now s + d" "\<lambda>e. max (fst (snd e)) (now s)" ?ready]
    by simp
  then show ?thesis by (simp add: advance_def Let_def)
qed

lemma onStateChange_now: "now (onStateChange snapshot s) = now s"
  by (simp add: onStateChange_def debouncedSave_def debounced_def setTimeout_def clear_frame)

lemma updateSnapshot_now: "now (updateSnapshot snapshot s) = now s"
  by (simp add: updateSnapshot_def onStateChange_now)

lemma stamped_step:
  assumes "stamped (now s) (world s)"
  shows "stamped (now (step ev s)) (world (step ev s))"
proof (cases ev)
  case (SetCanvasId i nm)
  with assms show ?thesis
    by (auto simp: stamped_def setCanvasId_def Let_def split: option.splits)
next
  case (SetErrorHandler h)
  with assms show ?thesis by (simp add: stamped_def setErrorHandler_def)
next
  case (OnStateChange snapshot)
  with assms show ?thesis by (simp add: stamped_def onStateChange_calls onStateChange_now)
next
  case (UpdateSnapshot snapshot)
  with assms show ?thesis
    by (simp add: stamped_def updateSnapshot_calls updateSnapshot_now)
next
  case (LoadCanvas i)
  with assms show ?thesis by (simp add: stamped_def loadCanvas_def)
next
  case (LoadSettled r)
  with assms show ?thesis
    by (auto simp: stamped_def loadCanvas_settled_def setTimeout_def Let_def
        split: sum.splits option.splits)
next
  case (CreateNewCanvas generated nm)
  with assms show ?thesis by (simp add: stamped_def createNewCanvas_def)
next
  case ForceSave
  with assms show ?thesis
    by (simp add: forceSave_def setTimeout_def debouncedSave_flush_def flush_frame stamped_save)
next
  case (SaveSettled r)
  with assms show ?thesis by (simp add: stamped_def step_SaveSettled_frame del: step.simps)
next
  case (Elapse d)
  with assms show ?thesis by (simp add: stamped_advance advance_frame)
qed

lemma stamped_exec:
  "stamped (now s) (world s) \<Longrightarrow> stamped (now (exec evs s)) (world (exec evs s))"
  by (induction evs arbitrary: s) (simp_all add: exec_def stamped_step)

lemma stamped_init: "stamped (now (init t0)) (world (init t0))"
  by (simp add: stamped_def init_def)

text \<open>
  Claim C8, as the code has it. A write of \<open>save\<close> carries the id, the name and the
  creation time the manager holds at that moment and the current time as \<open>updatedAt\<close>,
  and \<open>save\<close> leaves the creation time of the manager as it is. The creation time of the
  manager changes at \<open>createNewCanvas\<close> (to the current time) and at a load that finds
  a record (to the record's); no other event changes it, \<open>setCanvasId\<close> with or without
  a new name included. Whatever the event, the records it writes carry the creation
  time the manager held before it. Hence along any run none of whose events changes
  the creation time of the manager, every record written carries that one creation
  time, whatever the ids. The clock of the host never runs backwards: along every run
  of a manager, the \<open>updatedAt\<close> of the records written, in the order of writing, never
  decreases, over all records and so over the records of any one id.
\<close>

theorem writes_keep_createdAt:
  "(\<not> isLoading m \<and> truthy (canvasId m) \<and> currentSnapshot m = Some snap \<longrightarrow>
      save at m = m\<lparr>saveCanvasCalls := saveCanvasCalls m @
           [\<lparr>CanvasMetadata.id = the (canvasId m), name = canvasName m,
             CanvasMetadata.createdAt = createdAt m, updatedAt = at,
             CanvasData.nodes = Snapshot.nodes snap,
             CanvasData.appState = Snapshot.appState snap\<rparr>]\<rparr>) \<and>
   createdAt (save at m) = createdAt m \<and>
   createdAt (world (step ev s)) =
     (case ev of
        CreateNewCanvas generated nm \<Rightarrow> now s
      | LoadSettled r \<Rightarrow>
          (case r of Inr (Some data) \<Rightarrow> CanvasMetadata.createdAt data | _ \<Rightarrow> createdAt (world s))
      | _ \<Rightarrow> createdAt (world s)) \<and>
   writes_carry (createdAt (world s)) (world s) (world (step ev s)) \<and>
   (createdAt_untouched evs s \<longrightarrow>
      createdAt (world (exec evs s)) = createdAt (world s) \<and>
      writes_carry (createdAt (world s)) (world s) (world (exec evs s))) \<and>
   sorted (map updatedAt (saveCanvasCalls (world (exec evs' (init t0))))) \<and>
   sorted (map updatedAt
     (filter (\<lambda>r. CanvasMetadata.id r = i) (saveCanvasCalls (world (exec evs' (init t0))))))"
proof -
  have "stamped (now (exec evs' (init t0))) (world (exec evs' (init t0)))"
    by (rule stamped_exec[OF stamped_init])
  then have a: "sorted (map updatedAt (saveCanvasCalls (world (exec evs' (init t0)))))"
    by (simp add: stamped_def)
  then have b: "sorted (map updatedAt
     (filter (\<lambda>r. CanvasMetadata.id r = i) (saveCanvasCalls (world (exec evs' (init t0))))))"
    by (rule sorted_filter)
  from a b show ?thesis
    using save_writes[of m snap at] createdAt_step[of ev s]
    by (simp add: save_createdAt carry_exec carry_step)
qed

text \<open>
  Canvas c1 is created by a manager constructed at time 1000. The debounced save writes
  at 2000; the canvas is renamed through \<open>setCanvasId\<close>; a forced save writes at 2010.
  Both records carry the creation time 1000, and a \<open>save\<close> at 2500 would write a third
  one that does.
\<close>

theorem writes_keep_createdAt_witness:
  "createdAt_untouched
      [OnStateChange \<lparr>appState = ''A'', nodes = [1::nat]\<rparr>, Elapse 1000,
       SetCanvasId ''c1'' (Some ''New''),
       OnStateChange \<lparr>appState = ''B'', nodes = [2]\<rparr>, Elapse 10, ForceSave]
      (exec [CreateNewCanvas ''c1'' None] (init 1000)) \<and>
   saveCanvasCalls (world (exec
      [OnStateChange \<lparr>appState = ''A'', nodes = [1::nat]\<rparr>, Elapse 1000,
       SetCanvasId ''c1'' (Some ''New''),
       OnStateChange \<lparr>appState = ''B'', nodes = [2]\<rparr>, Elapse 10, ForceSave]
      (exec [CreateNewCanvas ''c1'' None] (init 1000)))) =
   [\<lparr>CanvasMetadata.id = ''c1'', name = ''Untitled Canvas'', CanvasMetadata.createdAt = 1000,
     updatedAt = 2000, CanvasData.nodes = [1], CanvasData.appState = ''A''\<rparr>,
    \<lparr>CanvasMetadata.id = ''c1'', name = ''New'', CanvasMetadata.createdAt = 1000,
     updatedAt = 2010, CanvasData.nodes = [2], CanvasData.appState = ''B''\<rparr>] \<and>
   saveCanvasCalls (save 2500 (world (exec
      [CreateNewCanvas ''c1'' None, OnStateChange \<lparr>appState = ''A'', nodes = [1::nat]\<rparr>,
       Elapse 1000, SetCanvasId ''c1'' (Some ''New''),
       OnStateChange \<lparr>appState = ''B'', nodes = [2]\<rparr>, Elapse 10, ForceSave]
      (init 1000)))) =
   [\<lparr>CanvasMetadata.id = ''c1'', name = ''Untitled Canvas'', CanvasMetadata.createdAt = 1000,
     updatedAt = 2000, CanvasData.nodes = [1], CanvasData.appState = ''A''\<rparr>,
    \<lparr>CanvasMetadata.id = ''c1'', name = ''New'', CanvasMetadata.createdAt = 1000,
     updatedAt = 2010, CanvasData.nodes = [2], CanvasData.appState = ''B''\<rparr>,
    \<lparr>CanvasMetadata.id = ''c1'', name = ''New'', CanvasMetadata.createdAt = 1000,
     updatedAt = 2500, CanvasData.nodes = [2], CanvasData.appState = ''B''\<rparr>]"
  using writes_keep_createdAt[of
      "world (exec
        [CreateNewCanvas ''c1'' None, OnStateChange \<lparr>appState = ''A'', nodes = [1::nat]\<rparr>,
         Elapse 1000, SetCanvasId ''c1'' (Some ''New''),
         OnStateChange \<lparr>appState = ''B'', nodes = [2]\<rparr>, Elapse 10, ForceSave]
        (init 1000))"
      "\<lparr>appState = ''B'', nodes = [2::nat]\<rparr>" 2500
      "SetCanvasId ''c1'' (Some ''New'')"
      "exec [CreateNewCanvas ''c1'' None] (init 1000)"
      "[OnStateChange \<lparr>appState = ''A'', nodes = [1::nat]\<rparr>, Elapse 1000,
        SetCanvasId ''c1'' (Some ''New''),
        OnStateChange \<lparr>appState = ''B'', nodes = [2]\<rparr>, Elapse 10, ForceSave]"
      "[CreateNewCanvas ''c1'' None, OnStateChange \<lparr>appState = ''A'', nodes = [1::nat]\<rparr>,
        Elapse 1000, SetCanvasId ''c1'' (Some ''New''),
        OnStateChange \<lparr>appState = ''B'', nodes = [2]\<rparr>, Elapse 10, ForceSave]"
      1000 "''c1''"]
  by (simp add: mgr_defs host_defs)

text \<open>
  Claim C8, as it is worded, fails. A manager constructed at time 1000 is pointed at
  canvas a by \<open>setCanvasId\<close> and saves it; 500 ms later it creates canvas b, is pointed
  at a again and saves. Both records are written for the id a: the first carries the
  creation time 1000, the second 1500.
\<close>

theorem createdAt_not_constant_per_id:
  "saveCanvasCalls (world (exec
      [SetCanvasId ''a'' None, UpdateSnapshot \<lparr>appState = ''A'', nodes = [1::nat]\<rparr>, ForceSave,
       Elapse 500, CreateNewCanvas ''b'' None, SetCanvasId ''a'' None,
       UpdateSnapshot \<lparr>appState = ''B'', nodes = [2]\<rparr>, ForceSave] (init 1000))) =
   [\<lparr>CanvasMetadata.id = ''a'', name = ''Untitled Canvas'', CanvasMetadata.createdAt = 1000,
     updatedAt = 1000, CanvasData.nodes = [1], CanvasData.appState = ''A''\<rparr>,
    \<lparr>CanvasMetadata.id = ''a'', name = ''Untitled Canvas'', CanvasMetadata.createdAt = 1500,
     updatedAt = 1500, CanvasData.nodes = [2], CanvasData.appState = ''B''\<rparr>]"
  by (simp add: mgr_defs host_defs)


end
